theory Spec2Isabelle
  imports Complex_Main
begin

section \<open>Python values, exceptions and configuration data\<close>

text \<open>
  The development embeds \<^verbatim>\<open>scr/generate_dataset.py\<close> (class \<^verbatim>\<open>GenerateDataset\<close>).
  Python integers are \<open>int\<close>. Python floats are modelled by exact rationals
  (\<open>rat\<close>): every float operation of the source (\<open>/\<close>, \<open>*\<close>, \<open>+\<close>, \<open>min\<close>,
  \<open>round\<close>) is taken as the exact operation, so binary rounding error is outside the
  model. A raised exception is the \<open>Inl\<close> of a sum; only the exception class is kept,
  not its message.
\<close>

datatype error =
  ValueError | KeyError | TypeError | ZeroDivisionError | OverflowError | IndexError

text \<open>
  What \<^verbatim>\<open>json.load\<close> returns: a dict keeps its insertion order (an association list);
  a float is a finite number (the literals \<^verbatim>\<open>NaN\<close> and \<^verbatim>\<open>Infinity\<close> are left out).
\<close>

datatype json =
    JNull
  | JBool bool
  | JInt int
  | JFloat rat
  | JStr string
  | JList "json list"
  | JDict "(string \<times> json) list"

text \<open>Sequencing of a computation that may raise: the first exception wins.\<close>

definition ebind :: "error + 'a \<Rightarrow> ('a \<Rightarrow> error + 'b) \<Rightarrow> error + 'b" where
  "ebind m f = (case m of Inl e \<Rightarrow> Inl e | Inr x \<Rightarrow> f x)"

fun map_err :: "('a \<Rightarrow> error + 'b) \<Rightarrow> 'a list \<Rightarrow> error + 'b list" where
  "map_err f [] = Inr []"
| "map_err f (x # xs) = ebind (f x) (\<lambda>y. ebind (map_err f xs) (\<lambda>ys. Inr (y # ys)))"

text \<open>
  \<^verbatim>\<open>isinstance(v, int)\<close>: true of an int and, \<open>bool\<close> being a subclass of \<open>int\<close>, of a
  bool; the result is the value the later comparisons and arithmetic see
  (\<^verbatim>\<open>True == 1\<close>, \<^verbatim>\<open>False == 0\<close>). \<^verbatim>\<open>isinstance(v, (int, float))\<close> likewise.
\<close>

fun isinstance_int :: "json \<Rightarrow> int option" where
  "isinstance_int (JInt n) = Some n"
| "isinstance_int (JBool b) = Some (if b then 1 else 0)"
| "isinstance_int _ = None"

fun isinstance_int_float :: "json \<Rightarrow> rat option" where
  "isinstance_int_float (JInt n) = Some (of_int n)"
| "isinstance_int_float (JBool b) = Some (if b then 1 else 0)"
| "isinstance_int_float (JFloat q) = Some q"
| "isinstance_int_float _ = None"

text \<open>\<^verbatim>\<open>data[key]\<close> on a dict: raises \<open>KeyError\<close> when the key is absent.\<close>

definition subscript :: "(string \<times> json) list \<Rightarrow> string \<Rightarrow> error + json" where
  "subscript d key = (case map_of d key of None \<Rightarrow> Inl KeyError | Some v \<Rightarrow> Inr v)"

section \<open>Simulation parameters: \<^verbatim>\<open>load_elevator_variables\<close>\<close>

text \<open>
  The attributes \<^verbatim>\<open>load_elevator_variables\<close> assigns. A peak-hours entry is kept as the
  pair (\<^verbatim>\<open>interval["start"]\<close>, \<^verbatim>\<open>interval["end"]\<close>) and the random-minutes range as the pair
  (\<^verbatim>\<open>["min"]\<close>, \<^verbatim>\<open>["max"]\<close>): the only parts of those dicts the program reads.
\<close>

record params =
  floor_capacities :: "(string \<times> int) list"
  floor_types :: "(string \<times> string) list"
  rows_generated :: int
  floor_number :: int
  negative_floor_number :: int
  min_time_interval_seconds :: int
  max_time_interval_seconds :: int
  interval_per_floor_seconds :: rat
  peak_hours :: "(int \<times> int) list"
  peak_multiplier :: rat
  random_minutes_range :: "int \<times> int"

text \<open>The keys of the structure check (lines 48-62): nine keys, in the source's order.\<close>

definition required_keys :: "string list" where
  "required_keys =
    [''floor_capacities'', ''floor_types'', ''rows_generated'', ''floor_number'',
     ''min_time_interval_seconds'', ''max_time_interval_seconds'', ''peak_hours'',
     ''peak_multiplier'', ''random_minutes_range'']"

text \<open>Lines 65-69: a dict whose every value is an int greater than zero.\<close>

fun check_capacities :: "(string \<times> json) list \<Rightarrow> error + (string \<times> int) list" where
  "check_capacities [] = Inr []"
| "check_capacities ((floor_type, capacity) # rest) =
     (case isinstance_int capacity of
        None \<Rightarrow> Inl ValueError
      | Some c \<Rightarrow>
          if c \<le> 0 then Inl ValueError
          else ebind (check_capacities rest) (\<lambda>r. Inr ((floor_type, c) # r)))"

definition validate_floor_capacities :: "json \<Rightarrow> error + (string \<times> int) list" where
  "validate_floor_capacities v =
     (case v of JDict items \<Rightarrow> check_capacities items | _ \<Rightarrow> Inl ValueError)"

text \<open>Lines 72-76: a dict whose every value is a string (a JSON key always is one).\<close>

fun check_floor_types :: "(string \<times> json) list \<Rightarrow> error + (string \<times> string) list" where
  "check_floor_types [] = Inr []"
| "check_floor_types ((floor_no, floor_type) # rest) =
     (case floor_type of
        JStr t \<Rightarrow> ebind (check_floor_types rest) (\<lambda>r. Inr ((floor_no, t) # r))
      | _ \<Rightarrow> Inl ValueError)"

definition validate_floor_types :: "json \<Rightarrow> error + (string \<times> string) list" where
  "validate_floor_types v =
     (case v of JDict items \<Rightarrow> check_floor_types items | _ \<Rightarrow> Inl ValueError)"

text \<open>Lines 79-100: \<^verbatim>\<open>not isinstance(x, int) or x <= 0\<close> raises; line 90: \<^verbatim>\<open>... or x > 0\<close> raises.\<close>

definition validate_positive_int :: "json \<Rightarrow> error + int" where
  "validate_positive_int v =
     (case isinstance_int v of
        None \<Rightarrow> Inl ValueError
      | Some n \<Rightarrow> if n \<le> 0 then Inl ValueError else Inr n)"

definition validate_negative_floor_number :: "json \<Rightarrow> error + int" where
  "validate_negative_floor_number v =
     (case isinstance_int v of
        None \<Rightarrow> Inl ValueError
      | Some n \<Rightarrow> if n > 0 then Inl ValueError else Inr n)"

text \<open>Lines 103-107: \<^verbatim>\<open>not isinstance(x, (int, float)) or not 0 <= x\<close> raises.\<close>

definition validate_interval_per_floor :: "json \<Rightarrow> error + rat" where
  "validate_interval_per_floor v =
     (case isinstance_int_float v of
        None \<Rightarrow> Inl ValueError
      | Some q \<Rightarrow> if \<not> 0 \<le> q then Inl ValueError else Inr q)"

text \<open>
  Lines 110-120: a list of dicts (checked over the whole list first), then every entry
  has the keys \<^verbatim>\<open>start\<close> and \<^verbatim>\<open>end\<close>, both ints.
\<close>

fun is_dict :: "json \<Rightarrow> bool" where
  "is_dict (JDict _) = True"
| "is_dict _ = False"

fun check_peak_interval :: "json \<Rightarrow> error + int \<times> int" where
  "check_peak_interval (JDict items) =
     (case (map_of items ''start'', map_of items ''end'') of
        (Some s, Some e) \<Rightarrow>
          (case (isinstance_int s, isinstance_int e) of
             (Some a, Some b) \<Rightarrow> Inr (a, b)
           | _ \<Rightarrow> Inl ValueError)
      | _ \<Rightarrow> Inl ValueError)"
| "check_peak_interval _ = Inl ValueError"

definition validate_peak_hours :: "json \<Rightarrow> error + (int \<times> int) list" where
  "validate_peak_hours v =
     (case v of
        JList intervals \<Rightarrow>
          if \<not> list_all is_dict intervals then Inl ValueError
          else map_err check_peak_interval intervals
      | _ \<Rightarrow> Inl ValueError)"

text \<open>Lines 123-127: \<^verbatim>\<open>not isinstance(x, (int, float)) or not 0 <= x <= 1\<close> raises.\<close>

definition validate_peak_multiplier :: "json \<Rightarrow> error + rat" where
  "validate_peak_multiplier v =
     (case isinstance_int_float v of
        None \<Rightarrow> Inl ValueError
      | Some q \<Rightarrow> if \<not> (0 \<le> q \<and> q \<le> 1) then Inl ValueError else Inr q)"

text \<open>Lines 130-138: a dict with the keys \<^verbatim>\<open>min\<close> and \<^verbatim>\<open>max\<close>, both ints.\<close>

definition validate_random_minutes_range :: "json \<Rightarrow> error + int \<times> int" where
  "validate_random_minutes_range v =
     (case v of
        JDict items \<Rightarrow>
          (case (map_of items ''min'', map_of items ''max'') of
             (Some lo, Some hi) \<Rightarrow>
               (case (isinstance_int lo, isinstance_int hi) of
                  (Some a, Some b) \<Rightarrow> Inr (a, b)
                | _ \<Rightarrow> Inl ValueError)
           | _ \<Rightarrow> Inl ValueError)
      | _ \<Rightarrow> Inl ValueError)"

text \<open>
  \<^verbatim>\<open>load_elevator_variables\<close>, from the parsed top-level JSON object on (a missing or
  malformed file is turned into \<open>ValueError\<close> by the handler at lines 154-155 and is
  not modelled). The checks run in the source's order. The keys
  \<^verbatim>\<open>negative_floor_number\<close> and \<^verbatim>\<open>interval_per_floor_seconds\<close> are not in the
  structure check's list, so their subscripts can raise \<open>KeyError\<close>, which the handler
  does not catch.
\<close>

definition load_elevator_variables :: "(string \<times> json) list \<Rightarrow> error + params" where
  "load_elevator_variables data =
     (if \<not> list_all (\<lambda>key. map_of data key \<noteq> None) required_keys then Inl ValueError
      else
        ebind (ebind (subscript data ''floor_capacities'') validate_floor_capacities) (\<lambda>caps.
        ebind (ebind (subscript data ''floor_types'') validate_floor_types) (\<lambda>types.
        ebind (ebind (subscript data ''rows_generated'') validate_positive_int) (\<lambda>rows.
        ebind (ebind (subscript data ''floor_number'') validate_positive_int) (\<lambda>fn.
        ebind (ebind (subscript data ''negative_floor_number'') validate_negative_floor_number) (\<lambda>neg.
        ebind (ebind (subscript data ''min_time_interval_seconds'') validate_positive_int) (\<lambda>mn.
        ebind (ebind (subscript data ''max_time_interval_seconds'') validate_positive_int) (\<lambda>mx.
        ebind (ebind (subscript data ''interval_per_floor_seconds'') validate_interval_per_floor) (\<lambda>ipf.
        ebind (ebind (subscript data ''peak_hours'') validate_peak_hours) (\<lambda>peaks.
        ebind (ebind (subscript data ''peak_multiplier'') validate_peak_multiplier) (\<lambda>mult.
        ebind (ebind (subscript data ''random_minutes_range'') validate_random_minutes_range) (\<lambda>rmr.
        Inr \<lparr> floor_capacities = caps, floor_types = types, rows_generated = rows,
              floor_number = fn, negative_floor_number = neg,
              min_time_interval_seconds = mn, max_time_interval_seconds = mx,
              interval_per_floor_seconds = ipf, peak_hours = peaks,
              peak_multiplier = mult, random_minutes_range = rmr \<rparr>))))))))))))"

text \<open>A configuration every check accepts, and variants of it, for concrete runs.\<close>

definition base_config :: "(string \<times> json) list" where
  "base_config =
    [(''floor_capacities'', JDict [(''Residential'', JInt 10), (''Office'', JInt 50)]),
     (''floor_types'', JDict [(''0'', JStr ''Office'')]),
     (''rows_generated'', JInt 2),
     (''floor_number'', JInt 5),
     (''negative_floor_number'', JInt 0),
     (''min_time_interval_seconds'', JInt 5),
     (''max_time_interval_seconds'', JInt 300),
     (''interval_per_floor_seconds'', JFloat (1 / 16)),
     (''peak_hours'', JList [JDict [(''start'', JInt 8), (''end'', JInt 10)]]),
     (''peak_multiplier'', JFloat (1 / 2)),
     (''random_minutes_range'', JDict [(''min'', JInt 0), (''max'', JInt 0)])]"

definition base_params :: params where
  "base_params =
    \<lparr> floor_capacities = [(''Residential'', 10), (''Office'', 50)],
      floor_types = [(''0'', ''Office'')],
      rows_generated = 2, floor_number = 5, negative_floor_number = 0,
      min_time_interval_seconds = 5, max_time_interval_seconds = 300,
      interval_per_floor_seconds = 1 / 16, peak_hours = [(8, 10)],
      peak_multiplier = 1 / 2, random_minutes_range = (0, 0) \<rparr>"

text \<open>\<^verbatim>\<open>del data[key]\<close> and \<^verbatim>\<open>data[key] = v\<close> on the configuration, to build the variants.\<close>

definition without_key :: "string \<Rightarrow> (string \<times> json) list \<Rightarrow> (string \<times> json) list" where
  "without_key key d = filter (\<lambda>kv. fst kv \<noteq> key) d"

definition with_key :: "string \<Rightarrow> json \<Rightarrow> (string \<times> json) list \<Rightarrow> (string \<times> json) list" where
  "with_key key v d = map (\<lambda>kv. if fst kv = key then (key, v) else kv) d"

section \<open>Floor weights: \<^verbatim>\<open>floor_weights_mapping\<close>\<close>

text \<open>\<^verbatim>\<open>str(floor)\<close> of an int: decimal digits, with a leading minus sign when negative.\<close>

fun digits :: "nat \<Rightarrow> string" where
  "digits n = (if n < 10 then [''0123456789'' ! n]
               else digits (n div 10) @ [''0123456789'' ! (n mod 10)])"

definition str :: "int \<Rightarrow> string" where
  "str i = (if i < 0 then CHR ''-'' # digits (nat (- i)) else digits (nat i))"

text \<open>\<^verbatim>\<open>range(a, b)\<close> as a list.\<close>

definition py_range :: "int \<Rightarrow> int \<Rightarrow> int list" where
  "py_range a b = [a..b - 1]"

text \<open>
  Lines 159-164: for every floor of the range, the capacity of its type. The type is
  \<^verbatim>\<open>self.floor_types.get(str(floor), "Residential")\<close>; \<^verbatim>\<open>self.floor_capacities.get\<close>
  gives \<open>None\<close> for a type that \<^verbatim>\<open>floor_capacities\<close> does not have.
\<close>

definition floor_type_of :: "params \<Rightarrow> int \<Rightarrow> string" where
  "floor_type_of p floor_no =
     (case map_of (floor_types p) (str floor_no) of None \<Rightarrow> ''Residential'' | Some t \<Rightarrow> t)"

definition floor_capacities_mapping :: "params \<Rightarrow> int option list" where
  "floor_capacities_mapping p =
     map (\<lambda>floor_no. map_of (floor_capacities p) (floor_type_of p floor_no))
         (py_range (negative_floor_number p) (floor_number p))"

text \<open>
  The builtins \<^verbatim>\<open>min\<close> and \<^verbatim>\<open>max\<close> over the values: \<open>ValueError\<close> on an empty
  sequence; otherwise the first item is the candidate and every later item is compared
  with it (\<^verbatim>\<open>item < candidate\<close>, \<^verbatim>\<open>item > candidate\<close>), a comparison that involves
  \<open>None\<close> raising \<open>TypeError\<close>.
\<close>

fun py_lt :: "int option \<Rightarrow> int option \<Rightarrow> error + bool" where
  "py_lt (Some a) (Some b) = Inr (a < b)"
| "py_lt _ _ = Inl TypeError"

fun min_from :: "int option \<Rightarrow> int option list \<Rightarrow> error + int option" where
  "min_from m [] = Inr m"
| "min_from m (x # xs) = ebind (py_lt x m) (\<lambda>b. min_from (if b then x else m) xs)"

fun max_from :: "int option \<Rightarrow> int option list \<Rightarrow> error + int option" where
  "max_from m [] = Inr m"
| "max_from m (x # xs) = ebind (py_lt m x) (\<lambda>b. max_from (if b then x else m) xs)"

definition py_min :: "int option list \<Rightarrow> error + int option" where
  "py_min xs = (case xs of [] \<Rightarrow> Inl ValueError | x # rest \<Rightarrow> min_from x rest)"

definition py_max :: "int option list \<Rightarrow> error + int option" where
  "py_max xs = (case xs of [] \<Rightarrow> Inl ValueError | x # rest \<Rightarrow> max_from x rest)"

text \<open>Subtraction of two looked-up capacities, and true division.\<close>

fun py_sub :: "int option \<Rightarrow> int option \<Rightarrow> error + int" where
  "py_sub (Some a) (Some b) = Inr (a - b)"
| "py_sub _ _ = Inl TypeError"

definition py_div :: "rat \<Rightarrow> rat \<Rightarrow> error + rat" where
  "py_div a b = (if b = 0 then Inl ZeroDivisionError else Inr (a / b))"

text \<open>
  \<^verbatim>\<open>round(x, ndigits)\<close>: the nearest multiple of \<open>10\<close> to the power \<open>- ndigits\<close>, a tie going
  to the even one.
\<close>

definition round_half_even :: "rat \<Rightarrow> int" where
  "round_half_even y =
     (let f = \<lfloor>y\<rfloor>; r = y - of_int f
      in if r < 1 / 2 then f
         else if 1 / 2 < r then f + 1
         else if even f then f else f + 1)"

definition py_round :: "rat \<Rightarrow> nat \<Rightarrow> rat" where
  "py_round x ndigits = of_int (round_half_even (x * 10 ^ ndigits)) / 10 ^ ndigits"

text \<open>
  Lines 173-177, one entry of the comprehension:
  \<^verbatim>\<open>base_weight + (capacity - min_capacity) / (max_capacity - min_capacity)\<close>.
\<close>

definition raw_weight :: "rat \<Rightarrow> int option \<Rightarrow> int option \<Rightarrow> int option \<Rightarrow> error + rat" where
  "raw_weight base_weight min_capacity max_capacity capacity =
     ebind (py_sub capacity min_capacity) (\<lambda>a.
     ebind (py_sub max_capacity min_capacity) (\<lambda>b.
     ebind (py_div (of_int a) (of_int b)) (\<lambda>q.
     Inr (base_weight + q))))"

text \<open>\<^verbatim>\<open>floor_weights_mapping\<close>: the result is the \<^verbatim>\<open>weight_list\<close> attribute it sets.\<close>

definition floor_weights_mapping :: "params \<Rightarrow> error + rat list" where
  "floor_weights_mapping p =
     (let capacities = floor_capacities_mapping p in
      ebind (py_min capacities) (\<lambda>min_capacity.
      ebind (py_max capacities) (\<lambda>max_capacity.
      ebind (py_div 1 (of_int (floor_number p))) (\<lambda>base_weight.
      ebind (map_err (raw_weight base_weight min_capacity max_capacity) capacities) (\<lambda>raw.
      let total_weight = sum_list raw in
      map_err (\<lambda>weight. ebind (py_div weight total_weight) (\<lambda>q. Inr (py_round q 3))) raw)))))"

section \<open>Weighted floor sampling\<close>

text \<open>
  The random library is an oracle: the outcomes of the successive \<^verbatim>\<open>random.choices\<close>
  calls are the sequence \<open>floor_draws\<close>, those of the \<^verbatim>\<open>random.randint\<close> calls the
  sequence \<open>minute_draws\<close>, each read at its position, which the call advances. The
  library returns a member of the population, and an integer within the bounds; the
  theorems that need it assume it of the draws.
\<close>

record rng =
  floor_draws :: "nat \<Rightarrow> int"
  floor_pos :: nat
  minute_draws :: "nat \<Rightarrow> int"
  minute_pos :: nat

text \<open>
  \<^verbatim>\<open>random.choices(population, weights=w)[0]\<close> (CPython 3.9 and later): \<open>ValueError\<close>
  when the number of weights is not the size of the population, \<open>IndexError\<close> on an
  empty population, \<open>ValueError\<close> when the weights sum to zero or less; otherwise one
  draw.
\<close>

definition choices :: "int list \<Rightarrow> rat list \<Rightarrow> rng \<Rightarrow> error + int \<times> rng" where
  "choices population weights g =
     (if length weights \<noteq> length population then Inl ValueError
      else if population = [] then Inl IndexError
      else if sum_list weights \<le> 0 then Inl ValueError
      else Inr (floor_draws g (floor_pos g), g\<lparr>floor_pos := Suc (floor_pos g)\<rparr>))"

definition pick_random_floor_weighted :: "params \<Rightarrow> rat list \<Rightarrow> rng \<Rightarrow> error + int \<times> rng" where
  "pick_random_floor_weighted p weight_list g =
     choices (py_range (negative_floor_number p) (floor_number p)) weight_list g"

text \<open>
  \<^verbatim>\<open>pick_next_door\<close>: the \<^verbatim>\<open>while True\<close> loop draws until the floor differs from
  \<^verbatim>\<open>demand_floor\<close>. The value \<open>None\<close> is the loop that never ends.
\<close>

partial_function (option) pick_next_door ::
    "params \<Rightarrow> rat list \<Rightarrow> int \<Rightarrow> rng \<Rightarrow> (error + int \<times> rng) option" where
  "pick_next_door p weight_list demand g =
     (case choices (py_range (negative_floor_number p) (floor_number p)) weight_list g of
        Inl e \<Rightarrow> Some (Inl e)
      | Inr r \<Rightarrow>
          if fst r \<noteq> demand then Some (Inr r)
          else pick_next_door p weight_list demand (snd r))"

declare pick_next_door.simps [code]

section \<open>The simulation cursor and \<^verbatim>\<open>obtain_table_last_state\<close>\<close>

text \<open>
  A \<^verbatim>\<open>datetime\<close> is the number of microseconds since 0001-01-01 00:00:00, the first
  instant the type has; the last one is 9999-12-31 23:59:59.999999.
\<close>

type_synonym datetime = int

definition datetime_max :: int where
  "datetime_max = 3652059 * 86400000000"

record cursor =
  current_floor :: int
  demand_floor :: int
  start_time :: datetime

text \<open>A row of the store, as \<^verbatim>\<open>get_last_elevator_state\<close> returns it.\<close>

record elevator_row =
  row_current_floor :: int
  row_demand_floor :: int
  row_next_floor :: int
  row_call_datetime :: datetime

text \<open>
  \<^verbatim>\<open>obtain_table_last_state\<close>: \<open>last_state\<close> is the answer of the store, \<open>today\<close> the
  value of \<^verbatim>\<open>datetime.today()\<close>.
\<close>

definition obtain_table_last_state ::
    "params \<Rightarrow> rat list \<Rightarrow> elevator_row option \<Rightarrow> datetime \<Rightarrow> rng \<Rightarrow> error + cursor \<times> rng" where
  "obtain_table_last_state p weight_list last_state today g =
     (case last_state of
        Some row \<Rightarrow>
          Inr (\<lparr> current_floor = row_next_floor row, demand_floor = row_demand_floor row,
                 start_time = row_call_datetime row \<rparr>, g)
      | None \<Rightarrow>
          ebind (pick_random_floor_weighted p weight_list g) (\<lambda>r1.
          ebind (pick_random_floor_weighted p weight_list (snd r1)) (\<lambda>r2.
          Inr (\<lparr> current_floor = fst r1, demand_floor = fst r2, start_time = today \<rparr>,
               snd r2))))"

section \<open>The interval calculator: \<^verbatim>\<open>calculate_interval_minutes\<close>\<close>

text \<open>The two lag terms (lines 225-243), in minutes.\<close>

definition current_floor_interval_lag :: "params \<Rightarrow> int \<Rightarrow> int \<Rightarrow> rat" where
  "current_floor_interval_lag p current demand =
     (let current_floor_distance = \<bar>current - demand\<bar>
      in (if current_floor_distance \<le> 1 then of_int (min_time_interval_seconds p)
          else min (of_int (max_time_interval_seconds p))
                   (of_int current_floor_distance * interval_per_floor_seconds p)) / 60)"

definition next_floor_interval_lag :: "params \<Rightarrow> int \<Rightarrow> int \<Rightarrow> rat" where
  "next_floor_interval_lag p next_floor demand =
     (let next_floor_distance = \<bar>next_floor - demand\<bar>
      in (if next_floor_distance \<le> 1 then of_int (min_time_interval_seconds p)
          else min (of_int (max_time_interval_seconds p))
                   (of_int next_floor_distance * interval_per_floor_seconds p)) / 60)"

text \<open>\<^verbatim>\<open>start_time.hour\<close>, and the multiplier of lines 246-252.\<close>

definition hour :: "datetime \<Rightarrow> int" where
  "hour t = (t div 3600000000) mod 24"

definition peak_interval_multiplier :: "params \<Rightarrow> datetime \<Rightarrow> rat" where
  "peak_interval_multiplier p t =
     (if list_ex (\<lambda>interval. fst interval \<le> hour t \<and> hour t < snd interval) (peak_hours p)
      then peak_multiplier p else 1)"

text \<open>\<^verbatim>\<open>random.randint(a, b)\<close>: \<open>ValueError\<close> on an empty range, otherwise one draw.\<close>

definition randint :: "int \<Rightarrow> int \<Rightarrow> rng \<Rightarrow> error + int \<times> rng" where
  "randint a b g =
     (if b < a then Inl ValueError
      else Inr (minute_draws g (minute_pos g), g\<lparr>minute_pos := Suc (minute_pos g)\<rparr>))"

definition calculate_interval_minutes ::
    "params \<Rightarrow> cursor \<Rightarrow> int \<Rightarrow> rng \<Rightarrow> error + rat \<times> rng" where
  "calculate_interval_minutes p c next_floor g =
     (let current_lag = current_floor_interval_lag p (current_floor c) (demand_floor c);
          next_lag = next_floor_interval_lag p next_floor (demand_floor c);
          multiplier = peak_interval_multiplier p (start_time c)
      in ebind (randint (fst (random_minutes_range p)) (snd (random_minutes_range p)) g) (\<lambda>r.
         Inr (of_int (fst r) * multiplier + current_lag + next_lag, snd r)))"

section \<open>The generation loop: \<^verbatim>\<open>generate_elevator_states\<close>\<close>

text \<open>
  \<^verbatim>\<open>timedelta(minutes=m)\<close> is a whole number of microseconds, the nearest one, a tie going
  to the even one. \<^verbatim>\<open>start_time + timedelta\<close> raises \<open>OverflowError\<close> outside the range
  of \<^verbatim>\<open>datetime\<close> (a \<^verbatim>\<open>timedelta\<close> beyond its own, wider range raises the same).
\<close>

definition timedelta_minutes :: "rat \<Rightarrow> int" where
  "timedelta_minutes m = round_half_even (m * 60000000)"

definition datetime_add :: "datetime \<Rightarrow> int \<Rightarrow> error + datetime" where
  "datetime_add t delta =
     (if 0 \<le> t + delta \<and> t + delta < datetime_max then Inr (t + delta)
      else Inl OverflowError)"

text \<open>
  \<^verbatim>\<open>strftime("%Y-%m-%d %H:%M:%S")\<close>: the civil date of the day number (proleptic
  Gregorian calendar, day 0 being 0001-01-01), and the time of day in whole seconds.
\<close>

definition civil_from_days :: "int \<Rightarrow> int \<times> int \<times> int" where
  "civil_from_days days =
     (let z = days + 306;
          era = z div 146097;
          doe = z mod 146097;
          yoe = (doe - doe div 1460 + doe div 36524 - doe div 146096) div 365;
          doy = doe - (365 * yoe + yoe div 4 - yoe div 100);
          mp = (5 * doy + 2) div 153;
          d = doy - (153 * mp + 2) div 5 + 1;
          m = (if mp < 10 then mp + 3 else mp - 9);
          y = yoe + era * 400 + (if m \<le> 2 then 1 else 0)
      in (y, m, d))"

definition pad2 :: "int \<Rightarrow> string" where
  "pad2 n = (if n < 10 then CHR ''0'' # str n else str n)"

definition pad4 :: "int \<Rightarrow> string" where
  "pad4 n = replicate (4 - length (str n)) (CHR ''0'') @ str n"

definition strftime :: "datetime \<Rightarrow> string" where
  "strftime t =
     (let seconds = t div 1000000;
          date = civil_from_days (seconds div 86400);
          sod = seconds mod 86400
      in pad4 (fst date) @ ''-'' @ pad2 (fst (snd date)) @ ''-'' @ pad2 (snd (snd date))
         @ '' '' @ pad2 (sod div 3600) @ '':'' @ pad2 (sod mod 3600 div 60)
         @ '':'' @ pad2 (sod mod 60))"

text \<open>
  One record per call of \<^verbatim>\<open>create_elevator_state\<close>: its four arguments, and beside
  them the in-memory \<^verbatim>\<open>call_datetime\<close> that \<open>date_str\<close> was formatted from.
\<close>

record created_state =
  cs_current_floor :: int
  cs_demand_floor :: int
  cs_next_floor :: int
  cs_date_str :: string
  cs_call_datetime :: datetime

text \<open>
  The loop of lines 270-287, \<open>n\<close> iterations to go. The result is the list of states
  created and how the loop ended: \<open>Some (Inr _)\<close> when it completed (with the final
  cursor), \<open>Some (Inl e)\<close> when an exception ended it, \<open>None\<close> when \<^verbatim>\<open>pick_next_door\<close>
  never returned. The store's \<^verbatim>\<open>create_elevator_state\<close> is taken to succeed.
\<close>

fun generate_rows ::
    "nat \<Rightarrow> params \<Rightarrow> rat list \<Rightarrow> cursor \<Rightarrow> rng
      \<Rightarrow> created_state list \<times> (error + cursor \<times> rng) option" where
  "generate_rows 0 p weight_list c g = ([], Some (Inr (c, g)))"
| "generate_rows (Suc n) p weight_list c g =
     (case pick_next_door p weight_list (demand_floor c) g of
        None \<Rightarrow> ([], None)
      | Some (Inl e) \<Rightarrow> ([], Some (Inl e))
      | Some (Inr r1) \<Rightarrow>
          (case calculate_interval_minutes p c (fst r1) (snd r1) of
             Inl e \<Rightarrow> ([], Some (Inl e))
           | Inr r2 \<Rightarrow>
               (case datetime_add (start_time c) (timedelta_minutes (fst r2)) of
                  Inl e \<Rightarrow> ([], Some (Inl e))
                | Inr call_datetime \<Rightarrow>
                    (let created =
                           \<lparr> cs_current_floor = current_floor c,
                             cs_demand_floor = demand_floor c,
                             cs_next_floor = fst r1,
                             cs_date_str = strftime call_datetime,
                             cs_call_datetime = call_datetime \<rparr>
                     in case pick_random_floor_weighted p weight_list (snd r2) of
                          Inl e \<Rightarrow> ([created], Some (Inl e))
                        | Inr r3 \<Rightarrow>
                            (let rest =
                                   generate_rows n p weight_list
                                     \<lparr> current_floor = fst r1, demand_floor = fst r3,
                                       start_time = call_datetime \<rparr>
                                     (snd r3)
                             in (created # fst rest, snd rest))))))"

definition generate_elevator_states ::
    "(string \<times> json) list \<Rightarrow> elevator_row option \<Rightarrow> datetime \<Rightarrow> rng
      \<Rightarrow> created_state list \<times> (error + cursor \<times> rng) option" where
  "generate_elevator_states data last_state today g =
     (case load_elevator_variables data of
        Inl e \<Rightarrow> ([], Some (Inl e))
      | Inr p \<Rightarrow>
          (case floor_weights_mapping p of
             Inl e \<Rightarrow> ([], Some (Inl e))
           | Inr weight_list \<Rightarrow>
               (case obtain_table_last_state p weight_list last_state today g of
                  Inl e \<Rightarrow> ([], Some (Inl e))
                | Inr seed \<Rightarrow>
                    generate_rows (nat (rows_generated p)) p weight_list (fst seed) (snd seed))))"

section \<open>The interval formula as the specification words it\<close>

text \<open>
  These definitions follow the specification's sentences, not the code: the lag of a
  distance, the peak test (\<open>start \<le> hour < end\<close> for some window), the scaled random
  minutes and their total. They are compared with \<^verbatim>\<open>calculate_interval_minutes\<close> below.
\<close>

definition spec_lag :: "params \<Rightarrow> int \<Rightarrow> rat" where
  "spec_lag p distance =
     (if distance \<le> 1 then of_int (min_time_interval_seconds p)
      else min (of_int (max_time_interval_seconds p))
               (of_int distance * interval_per_floor_seconds p)) / 60"

definition spec_in_peak_window :: "params \<Rightarrow> datetime \<Rightarrow> bool" where
  "spec_in_peak_window p t = (\<exists>w \<in> set (peak_hours p). fst w \<le> hour t \<and> hour t < snd w)"

definition spec_scaled_random_minutes :: "params \<Rightarrow> datetime \<Rightarrow> int \<Rightarrow> rat" where
  "spec_scaled_random_minutes p t r =
     (if spec_in_peak_window p t then of_int r * peak_multiplier p else of_int r * 1)"

definition spec_interval :: "params \<Rightarrow> cursor \<Rightarrow> int \<Rightarrow> int \<Rightarrow> rat" where
  "spec_interval p c next_floor r =
     spec_scaled_random_minutes p (start_time c) r
     + spec_lag p \<bar>current_floor c - demand_floor c\<bar>
     + spec_lag p \<bar>next_floor - demand_floor c\<bar>"

section \<open>Concrete inputs\<close>

text \<open>
  The weights \<^verbatim>\<open>floor_weights_mapping\<close> derives from \<open>base_params\<close>, and a random
  outcome: the floor draws 2, 4, 2, 0, 1 (then 1 for ever) and the minute draws 0.
\<close>

definition base_weights :: "rat list" where
  "base_weights = [3 / 5, 1 / 10, 1 / 10, 1 / 10, 1 / 10]"

definition example_rng :: rng where
  "example_rng =
     \<lparr> floor_draws = (\<lambda>n. if n < 4 then [2, 4, 2, 0] ! n else 1), floor_pos = 0,
       minute_draws = (\<lambda>n. 0), minute_pos = 0 \<rparr>"



text \<open>
  A cursor at floor 0 with demand at floor 2, the clock at 2024-01-01 12:00:00, and
  the stored row that seeds it.
\<close>

definition example_cursor :: cursor where
  "example_cursor = \<lparr> current_floor = 0, demand_floor = 2, start_time = 63839707200000000 \<rparr>"

definition example_last_state :: elevator_row where
  "example_last_state =
     \<lparr> row_current_floor = 1, row_demand_floor = 2, row_next_floor = 0,
       row_call_datetime = 63839707200000000 \<rparr>"

text \<open>
  Two variants of \<open>base_config\<close>: no floor has a type of its own, so every floor is
  \<^verbatim>\<open>"Residential"\<close>; and floor 0 has a type that \<^verbatim>\<open>floor_capacities\<close> does not list.
\<close>

definition uniform_config :: "(string \<times> json) list" where
  "uniform_config = with_key ''floor_types'' (JDict []) base_config"

definition uniform_params :: params where
  "uniform_params = base_params\<lparr>floor_types := []\<rparr>"

definition unknown_type_config :: "(string \<times> json) list" where
  "unknown_type_config =
     with_key ''floor_types'' (JDict [(''0'', JStr ''Penthouse'')]) base_config"

definition unknown_type_params :: params where
  "unknown_type_params = base_params\<lparr>floor_types := [(''0'', ''Penthouse'')]\<rparr>"

text \<open>
  A variant of \<open>base_config\<close> whose random minutes are \<open>- 10\<close> (the range is
  \<^verbatim>\<open>{"min": -10, "max": -10}\<close>), and the outcome in which every minute draw is \<open>- 10\<close>.
\<close>

definition negative_minutes_config :: "(string \<times> json) list" where
  "negative_minutes_config =
     with_key ''random_minutes_range'' (JDict [(''min'', JInt (- 10)), (''max'', JInt (- 10))])
       base_config"

definition negative_minutes_params :: params where
  "negative_minutes_params = base_params\<lparr>random_minutes_range := (- 10, - 10)\<rparr>"

definition negative_minutes_rng :: rng where
  "negative_minutes_rng = example_rng\<lparr>minute_draws := (\<lambda>n. - 10)\<rparr>"

text \<open>
  Four floors, the lowest \<^verbatim>\<open>"Residential"\<close> and the other three \<^verbatim>\<open>"Office"\<close>: the
  normalised weights are 1/16 and 5/16, each half-way between two multiples of 1/1000.
\<close>

definition tie_params :: params where
  "tie_params = base_params\<lparr>floor_types := [(''1'', ''Office''), (''2'', ''Office''),
       (''3'', ''Office'')], floor_number := 4\<rparr>"

section \<open>Parameter loading: what is validated, and how it fails\<close>

lemmas validate_defs =
  validate_floor_capacities_def validate_floor_types_def validate_positive_int_def
  validate_negative_floor_number_def validate_interval_per_floor_def
  validate_peak_hours_def validate_peak_multiplier_def validate_random_minutes_range_def

lemmas load_defs =
  load_elevator_variables_def required_keys_def ebind_def subscript_def validate_defs

lemma load_base_config: "load_elevator_variables base_config = Inr base_params"
  by (simp add: load_defs base_config_def base_params_def)

lemma ebind_Inr: "ebind m f = Inr y \<longleftrightarrow> (\<exists>x. m = Inr x \<and> f x = Inr y)"
  by (cases m) (auto simp: ebind_def)

lemma validate_positive_int_Inr: "validate_positive_int v = Inr n \<Longrightarrow> 0 < n"
  by (auto simp: validate_positive_int_def split: option.splits if_splits)

lemma validate_negative_floor_number_Inr:
  "validate_negative_floor_number v = Inr n \<Longrightarrow> n \<le> 0"
  by (auto simp: validate_negative_floor_number_def split: option.splits if_splits)

lemma validate_interval_per_floor_Inr: "validate_interval_per_floor v = Inr q \<Longrightarrow> 0 \<le> q"
  by (auto simp: validate_interval_per_floor_def split: option.splits if_splits)

lemma validate_peak_multiplier_Inr:
  "validate_peak_multiplier v = Inr q \<Longrightarrow> 0 \<le> q \<and> q \<le> 1"
  by (auto simp: validate_peak_multiplier_def split: option.splits if_splits)

lemma check_capacities_Inr:
  "check_capacities items = Inr caps \<Longrightarrow> \<forall>kc \<in> set caps. 0 < snd kc"
proof (induction items arbitrary: caps)
  case Nil
  then show ?case by simp
next
  case (Cons item rest)
  obtain k v where item: "item = (k, v)" by (cases item)
  from Cons.prems item obtain c r where c: "isinstance_int v = Some c" "0 < c"
    and r: "check_capacities rest = Inr r" and caps: "caps = (k, c) # r"
    by (auto simp: ebind_Inr split: option.splits if_splits)
  from Cons.IH[OF r] c caps show ?case by simp
qed

lemma validate_floor_capacities_Inr:
  "validate_floor_capacities v = Inr caps \<Longrightarrow> \<forall>kc \<in> set caps. 0 < snd kc"
  by (auto simp: validate_floor_capacities_def dest: check_capacities_Inr split: json.splits)

text \<open>What every accepted configuration satisfies.\<close>

lemma load_valid:
  assumes "load_elevator_variables data = Inr p"
  shows "0 < rows_generated p" "0 < floor_number p" "negative_floor_number p \<le> 0"
    "0 < min_time_interval_seconds p" "0 < max_time_interval_seconds p"
    "0 \<le> interval_per_floor_seconds p" "0 \<le> peak_multiplier p" "peak_multiplier p \<le> 1"
    "\<forall>kc \<in> set (floor_capacities p). 0 < snd kc"
  using assms
  unfolding load_elevator_variables_def
  by (auto simp: ebind_Inr split: if_splits
      dest!: validate_positive_int_Inr validate_negative_floor_number_Inr
        validate_interval_per_floor_Inr validate_peak_multiplier_Inr
        validate_floor_capacities_Inr)

lemma ebind_simps: "ebind (Inr x) f = f x" "ebind (Inl e) f = Inl e"
  by (simp_all add: ebind_def)

lemma map_of_with_key:
  "map_of (with_key k v d) k' =
     (if k' = k then (case map_of d k of None \<Rightarrow> None | Some _ \<Rightarrow> Some v) else map_of d k')"
  by (induction d) (auto simp: with_key_def)

lemma subscript_with_key_other:
  "k' \<noteq> k \<Longrightarrow> subscript (with_key k v d) k' = subscript d k'"
  by (simp add: subscript_def map_of_with_key)

text \<open>
  The check of \<^verbatim>\<open>floor_types\<close> looks at nothing but the values being strings: in an
  accepted configuration, any other dict of strings is accepted in its place, whatever
  \<^verbatim>\<open>floor_capacities\<close> holds.
\<close>

lemma load_accepts_any_floor_type_names:
  assumes "load_elevator_variables data = Inr p"
    and "check_floor_types items = Inr ts"
  shows "load_elevator_variables (with_key ''floor_types'' (JDict items) data)
         = Inr (p\<lparr>floor_types := ts\<rparr>)"
proof -
  let ?d = "with_key ''floor_types'' (JDict items) data"
  from assms(1) have keys: "list_all (\<lambda>key. map_of data key \<noteq> None) required_keys"
    by (auto simp: load_elevator_variables_def split: if_splits)
  then have ft: "map_of data ''floor_types'' \<noteq> None" by (simp add: required_keys_def)
  from keys have keys': "list_all (\<lambda>key. map_of ?d key \<noteq> None) required_keys"
    by (auto simp: required_keys_def map_of_with_key split: option.splits)
  from ft assms(2) have sub: "ebind (subscript ?d ''floor_types'') validate_floor_types = Inr ts"
    by (auto simp: subscript_def map_of_with_key ebind_def validate_floor_types_def
        split: option.splits)
  from assms(1) keys keys' show ?thesis
    unfolding load_elevator_variables_def
    by (auto simp: sub subscript_with_key_other ebind_Inr ebind_simps)
qed

text \<open>
  Claim C4 says that a configuration in which a required key is missing, of the wrong
  primitive type or out of range is refused with the configuration error (the
  \<open>ValueError\<close> every check of \<^verbatim>\<open>load_elevator_variables\<close> raises), the keys
  \<^verbatim>\<open>negative_floor_number\<close> and \<^verbatim>\<open>interval_per_floor_seconds\<close> included. The code
  does not do that: with either of these two keys missing from an otherwise accepted
  configuration the load ends in an uncaught \<open>KeyError\<close>, where a missing
  \<^verbatim>\<open>floor_number\<close> gives the \<open>ValueError\<close>; and a JSON \<^verbatim>\<open>true\<close> where an integer
  is required is accepted as the integer 1.
\<close>

theorem load_missing_key_is_KeyError:
  "load_elevator_variables (without_key ''negative_floor_number'' base_config) = Inl KeyError
   \<and> load_elevator_variables (without_key ''interval_per_floor_seconds'' base_config)
       = Inl KeyError
   \<and> load_elevator_variables (without_key ''floor_number'' base_config) = Inl ValueError
   \<and> load_elevator_variables (with_key ''rows_generated'' (JBool True) base_config)
       = Inr (base_params\<lparr>rows_generated := 1\<rparr>)"
  by (simp add: load_defs base_config_def base_params_def without_key_def with_key_def)

section \<open>The rejection loop of \<^verbatim>\<open>pick_next_door\<close>\<close>

lemma choices_Inr:
  "choices pop ws g = Inr r \<Longrightarrow>
     r = (floor_draws g (floor_pos g), g\<lparr>floor_pos := Suc (floor_pos g)\<rparr>)"
  by (auto simp: choices_def split: if_splits)

lemma choices_Inl_any_rng: "choices pop ws g = Inl e \<Longrightarrow> choices pop ws g' = Inl e"
  by (auto simp: choices_def split: if_splits)

text \<open>
  What a returned value tells: an exception is the one \<^verbatim>\<open>random.choices\<close> raises; a
  floor is the first draw, from the current position on, that differs from the demand
  floor.
\<close>

lemma pick_next_door_Some:
  assumes "pick_next_door p ws d g = Some y"
  shows "case y of
           Inl e \<Rightarrow> choices (py_range (negative_floor_number p) (floor_number p)) ws g = Inl e
         | Inr r \<Rightarrow> fst r \<noteq> d \<and> (\<exists>k\<ge>floor_pos g. floor_draws g k = fst r
                       \<and> snd r = g\<lparr>floor_pos := Suc k\<rparr>
                       \<and> (\<forall>j. floor_pos g \<le> j \<and> j < k \<longrightarrow> floor_draws g j = d))"
proof (rule pick_next_door.raw_induct[OF _ assms])
  fix pick :: "params \<Rightarrow> rat list \<Rightarrow> int \<Rightarrow> rng \<Rightarrow> (error + int \<times> rng) option"
    and p :: params and ws d and g :: rng and y
  let ?pop = "py_range (negative_floor_number p) (floor_number p)"
  let ?P = "\<lambda>(p::params) ws d (g::rng) y. case y of
           Inl e \<Rightarrow> choices (py_range (negative_floor_number p) (floor_number p)) ws g = Inl e
         | Inr r \<Rightarrow> fst r \<noteq> d \<and> (\<exists>k\<ge>floor_pos g. floor_draws g k = fst r
                       \<and> snd r = g\<lparr>floor_pos := Suc k\<rparr>
                       \<and> (\<forall>j. floor_pos g \<le> j \<and> j < k \<longrightarrow> floor_draws g j = d))"
  assume IH: "\<And>p ws d g y. pick p ws d g = Some y \<Longrightarrow> ?P p ws d g y"
    and body: "(case choices ?pop ws g of
                  Inl e \<Rightarrow> Some (Inl e)
                | Inr r \<Rightarrow> if fst r \<noteq> d then Some (Inr r) else pick p ws d (snd r)) = Some y"
  show "?P p ws d g y"
  proof (cases "choices ?pop ws g")
    case (Inl e)
    with body show ?thesis by auto
  next
    case (Inr r)
    note r = choices_Inr[OF Inr]
    show ?thesis
    proof (cases "fst r \<noteq> d")
      case True
      with body Inr r show ?thesis by (auto intro!: exI[of _ "floor_pos g"])
    next
      case False
      with body Inr have again: "pick p ws d (snd r) = Some y" by simp
      show ?thesis
      proof (cases y)
        case (Inl e)
        with IH[OF again] have "choices ?pop ws (snd r) = Inl e" by simp
        from choices_Inl_any_rng[OF this] Inl show ?thesis by simp
      next
        case (Inr r')
        with IH[OF again] obtain k where k: "fst r' \<noteq> d" "k \<ge> floor_pos (snd r)"
          "floor_draws (snd r) k = fst r'" "snd r' = (snd r)\<lparr>floor_pos := Suc k\<rparr>"
          "\<forall>j. floor_pos (snd r) \<le> j \<and> j < k \<longrightarrow> floor_draws (snd r) j = d"
          by auto
        have "\<forall>j. floor_pos g \<le> j \<and> j < k \<longrightarrow> floor_draws g j = d"
        proof (intro allI impI)
          fix j assume j: "floor_pos g \<le> j \<and> j < k"
          show "floor_draws g j = d"
          proof (cases "j = floor_pos g")
            case True with False r show ?thesis by simp
          next
            case False with j k(5) r show ?thesis by simp
          qed
        qed
        with k r Inr show ?thesis by (auto intro!: exI[of _ k])
      qed
    qed
  qed
qed

text \<open>The loop returns as soon as some draw differs from the demand floor.\<close>

lemma pick_next_door_returns:
  assumes "length ws = length (py_range (negative_floor_number p) (floor_number p))"
    and "py_range (negative_floor_number p) (floor_number p) \<noteq> []"
    and "0 < sum_list ws"
    and "floor_pos g \<le> k" and "floor_draws g k \<noteq> d"
  shows "\<exists>r. pick_next_door p ws d g = Some (Inr r)"
  using assms(4,5)
proof (induction "k - floor_pos g" arbitrary: g)
  case 0
  then have "floor_draws g (floor_pos g) \<noteq> d" by simp
  with assms(1-3) show ?case
    by (subst pick_next_door.simps) (simp add: choices_def)
next
  case (Suc n)
  show ?case
  proof (cases "floor_draws g (floor_pos g) = d")
    case False
    with assms(1-3) show ?thesis
      by (subst pick_next_door.simps) (simp add: choices_def)
  next
    case True
    let ?g = "g\<lparr>floor_pos := Suc (floor_pos g)\<rparr>"
    from Suc.hyps(2) Suc.prems have "n = k - floor_pos ?g" "floor_pos ?g \<le> k"
      "floor_draws ?g k \<noteq> d" by auto
    from Suc.hyps(1)[OF this] obtain r where "pick_next_door p ws d ?g = Some (Inr r)" ..
    with True assms(1-3) show ?thesis
      by (subst pick_next_door.simps) (simp add: choices_def)
  qed
qed

text \<open>
  Claim C5: whenever \<^verbatim>\<open>pick_next_door\<close> returns a floor, that floor differs from the
  demand floor. It holds for every floor range, every weight list and every random
  outcome, so in particular for a range of two floors or more.
\<close>

theorem pick_next_door_differs_from_demand:
  "pick_next_door p weight_list demand g = Some (Inr (next_floor, g')) \<Longrightarrow> next_floor \<noteq> demand"
  by (drule pick_next_door_Some) simp

theorem pick_next_door_differs_from_demand_witness:
  "pick_next_door base_params base_weights 2 example_rng
     = Some (Inr (4, example_rng\<lparr>floor_pos := 2\<rparr>)) \<and> (4::int) \<noteq> 2"
proof -
  have run: "pick_next_door base_params base_weights 2 example_rng
             = Some (Inr (4, example_rng\<lparr>floor_pos := 2\<rparr>))"
    by (simp add: pick_next_door.simps choices_def py_range_def base_params_def
        base_weights_def example_rng_def)
  from pick_next_door_differs_from_demand[OF run] run show ?thesis by simp
qed



section \<open>The interval calculator\<close>

text \<open>
  Claim C7: for every cursor, candidate next floor and random-minutes draw \<open>r\<close>, the
  calculator returns exactly the specification's total: the scaled random minutes plus
  the lag of \<open>|currentFloor - demandFloor|\<close> plus the lag of \<open>|nextFloor - demandFloor|\<close>.
  The draw is the next outcome of \<^verbatim>\<open>random.randint\<close>, which returns whenever the
  range of random minutes is not empty.
\<close>

theorem calculate_interval_minutes_is_spec_interval:
  assumes "fst (random_minutes_range p) \<le> snd (random_minutes_range p)"
  shows "calculate_interval_minutes p c next_floor g
     = Inr (spec_interval p c next_floor (minute_draws g (minute_pos g)),
            g\<lparr>minute_pos := Suc (minute_pos g)\<rparr>)"
  using assms
  by (auto simp: calculate_interval_minutes_def randint_def ebind_def spec_interval_def
      spec_scaled_random_minutes_def spec_in_peak_window_def spec_lag_def
      current_floor_interval_lag_def next_floor_interval_lag_def peak_interval_multiplier_def
      list_ex_iff Let_def)

theorem calculate_interval_minutes_is_spec_interval_witness:
  "calculate_interval_minutes base_params example_cursor 4 example_rng
     = Inr (spec_interval base_params example_cursor 4 0, example_rng\<lparr>minute_pos := 1\<rparr>)
   \<and> spec_interval base_params example_cursor 4 0 = 1 / 240"
  using calculate_interval_minutes_is_spec_interval[of base_params example_cursor 4 example_rng]
  by (simp add: base_params_def example_cursor_def example_rng_def spec_interval_def
      spec_scaled_random_minutes_def spec_in_peak_window_def spec_lag_def hour_def)

text \<open>The end of a peak window is outside it: at 09:00 the multiplier applies, at 10:00 not.\<close>

lemma peak_window_end_excluded:
  "peak_interval_multiplier base_params (63839707200000000 - 3 * 3600000000) = 1 / 2
   \<and> peak_interval_multiplier base_params (63839707200000000 - 2 * 3600000000) = 1"
  by (simp add: peak_interval_multiplier_def base_params_def hour_def)




section \<open>Floor-weight derivation: the failing inputs\<close>

lemma floor_weights_base_params: "floor_weights_mapping base_params = Inr base_weights"
  by code_simp

lemma min_from_None_later: "None \<in> set xs \<Longrightarrow> min_from (Some a) xs = Inl TypeError"
proof (induction xs arbitrary: a)
  case Nil
  then show ?case by simp
next
  case (Cons x xs)
  show ?case
  proof (cases x)
    case None
    then show ?thesis by (simp add: ebind_def)
  next
    case (Some b)
    with Cons.prems have "None \<in> set xs" by simp
    from Cons.IH[OF this] Some show ?thesis by (simp add: ebind_def)
  qed
qed

lemma py_min_None:
  assumes "None \<in> set xs" and "2 \<le> length xs"
  shows "py_min xs = Inl TypeError"
proof -
  from assms(2) obtain x y rest where xs: "xs = x # y # rest"
    by (cases xs; cases "tl xs") auto
  show ?thesis
  proof (cases x)
    case None
    with xs show ?thesis by (simp add: py_min_def ebind_def)
  next
    case (Some a)
    with xs assms(1) have "None \<in> set (y # rest)" by auto
    from min_from_None_later[OF this] xs Some show ?thesis by (simp add: py_min_def)
  qed
qed

lemma min_from_replicate: "min_from (Some c) (replicate n (Some c)) = Inr (Some c)"
  by (induction n) (simp_all add: ebind_def)

lemma max_from_replicate: "max_from (Some c) (replicate n (Some c)) = Inr (Some c)"
  by (induction n) (simp_all add: ebind_def)

lemma py_range_nonempty: "a < b \<Longrightarrow> py_range a b \<noteq> []"
  by (simp add: py_range_def)

text \<open>
  Claim C3 says that when every floor resolves to the same capacity the derivation
  falls back to defined weights instead of dividing by zero. The code has no such
  guard: for every accepted configuration whose floors all have one capacity,
  \<^verbatim>\<open>max_capacity - min_capacity\<close> is 0 and \<^verbatim>\<open>floor_weights_mapping\<close> ends in
  \<open>ZeroDivisionError\<close>.
\<close>

theorem equal_capacities_divide_by_zero:
  assumes "load_elevator_variables data = Inr p"
    and "\<forall>fl \<in> set (py_range (negative_floor_number p) (floor_number p)).
           map_of (floor_capacities p) (floor_type_of p fl) = Some c"
  shows "floor_weights_mapping p = Inl ZeroDivisionError"
proof -
  let ?pop = "py_range (negative_floor_number p) (floor_number p)"
  from load_valid(2,3)[OF assms(1)] have "negative_floor_number p < floor_number p" by simp
  from py_range_nonempty[OF this] obtain f rest where pop: "?pop = f # rest"
    by (cases ?pop) auto
  from assms(2) have "floor_capacities_mapping p = replicate (length ?pop) (Some c)"
    unfolding floor_capacities_mapping_def
    by (simp add: map_replicate_const[symmetric] cong: map_cong)
  with pop have caps: "floor_capacities_mapping p = Some c # replicate (length rest) (Some c)"
    by simp
  from load_valid(2)[OF assms(1)] have fn: "floor_number p \<noteq> 0" by simp
  show ?thesis
    using fn
    by (simp add: floor_weights_mapping_def caps py_min_def py_max_def min_from_replicate
        max_from_replicate ebind_def py_div_def raw_weight_def)
qed

theorem equal_capacities_divide_by_zero_witness:
  "load_elevator_variables uniform_config = Inr uniform_params
   \<and> floor_capacities_mapping uniform_params = [Some 10, Some 10, Some 10, Some 10, Some 10]
   \<and> floor_weights_mapping uniform_params = Inl ZeroDivisionError"
proof -
  have l: "load_elevator_variables uniform_config = Inr uniform_params"
    by code_simp
  have h: "\<forall>fl \<in> set (py_range (negative_floor_number uniform_params)
                                  (floor_number uniform_params)).
             map_of (floor_capacities uniform_params) (floor_type_of uniform_params fl) = Some 10"
    by (simp add: uniform_params_def base_params_def floor_type_of_def)
  have m: "floor_capacities_mapping uniform_params
           = [Some 10, Some 10, Some 10, Some 10, Some 10]"
    by code_simp
  from equal_capacities_divide_by_zero[OF l h] l m show ?thesis by simp
qed

text \<open>
  Claim C10: the derivation needs the type of every floor of the range (the default
  \<^verbatim>\<open>"Residential"\<close> included) to be a key of \<^verbatim>\<open>floor_capacities\<close>. For a configuration
  that the loader accepts and that breaks this, the capacity lookup gives \<open>None\<close> and
  \<^verbatim>\<open>floor_weights_mapping\<close> ends in \<open>TypeError\<close>; the loader does not refuse it.
\<close>

theorem missing_capacity_is_TypeError:
  assumes "load_elevator_variables data = Inr p"
    and "\<exists>fl \<in> set (py_range (negative_floor_number p) (floor_number p)).
           map_of (floor_capacities p) (floor_type_of p fl) = None"
  shows "None \<in> set (floor_capacities_mapping p) \<and> floor_weights_mapping p = Inl TypeError"
proof -
  let ?caps = "floor_capacities_mapping p"
  from assms(2) have none: "None \<in> set ?caps"
    by (force simp: floor_capacities_mapping_def)
  from load_valid(2)[OF assms(1)] have fn: "floor_number p \<noteq> 0" by simp
  have "floor_weights_mapping p = Inl TypeError"
  proof (cases "2 \<le> length ?caps")
    case True
    from py_min_None[OF none True] show ?thesis
      by (simp add: floor_weights_mapping_def ebind_def)
  next
    case False
    with none have caps: "?caps = [None]"
      by (cases ?caps; cases "tl ?caps") auto
    with fn show ?thesis
      by (simp add: floor_weights_mapping_def py_min_def py_max_def ebind_def py_div_def
          raw_weight_def)
  qed
  with none show ?thesis ..
qed

theorem missing_capacity_is_TypeError_witness:
  "load_elevator_variables unknown_type_config = Inr unknown_type_params
   \<and> floor_capacities_mapping unknown_type_params = [None, Some 10, Some 10, Some 10, Some 10]
   \<and> floor_weights_mapping unknown_type_params = Inl TypeError"
proof -
  have l: "load_elevator_variables unknown_type_config = Inr unknown_type_params"
    by code_simp
  have h: "\<exists>fl \<in> set (py_range (negative_floor_number unknown_type_params)
                                  (floor_number unknown_type_params)).
             map_of (floor_capacities unknown_type_params)
                    (floor_type_of unknown_type_params fl) = None"
    by code_simp
  have m: "floor_capacities_mapping unknown_type_params
           = [None, Some 10, Some 10, Some 10, Some 10]"
    by code_simp
  from missing_capacity_is_TypeError[OF l h] l m show ?thesis by simp
qed

section \<open>The generation loop\<close>

lemma generate_rows_Suc_Cons:
  assumes "generate_rows (Suc n) p ws c g = (s # rest, out)"
  obtains r1 r2 where
    "pick_next_door p ws (demand_floor c) g = Some (Inr r1)"
    "calculate_interval_minutes p c (fst r1) (snd r1) = Inr r2"
    "datetime_add (start_time c) (timedelta_minutes (fst r2)) = Inr (cs_call_datetime s)"
    "cs_current_floor s = current_floor c" "cs_next_floor s = fst r1"
    "cs_date_str s = strftime (cs_call_datetime s)"
    "rest = [] \<or>
       (\<exists>r3 out'. pick_random_floor_weighted p ws (snd r2) = Inr r3 \<and>
             generate_rows n p ws
                \<lparr> current_floor = fst r1, demand_floor = fst r3,
                  start_time = cs_call_datetime s \<rparr> (snd r3) = (rest, out'))"
proof -
  from assms obtain r1 where pick: "pick_next_door p ws (demand_floor c) g = Some (Inr r1)"
    by (auto split: option.splits sum.splits)
  from assms pick obtain r2 where calc: "calculate_interval_minutes p c (fst r1) (snd r1) = Inr r2"
    by (auto split: sum.splits)
  from assms pick calc obtain t where
    add: "datetime_add (start_time c) (timedelta_minutes (fst r2)) = Inr t"
    by (auto split: sum.splits)
  let ?created = "\<lparr> cs_current_floor = current_floor c, cs_demand_floor = demand_floor c,
                   cs_next_floor = fst r1, cs_date_str = strftime t, cs_call_datetime = t \<rparr>"
  show thesis
  proof (cases "pick_random_floor_weighted p ws (snd r2)")
    case (Inl e)
    with assms pick calc add have "s = ?created" "rest = []" by (simp_all add: Let_def)
    with pick calc add show ?thesis by (intro that[of r1 r2]) simp_all
  next
    case (Inr r3)
    let ?c' = "\<lparr> current_floor = fst r1, demand_floor = fst r3, start_time = t \<rparr>"
    from assms pick calc add Inr have s: "s = ?created"
      and rest: "rest = fst (generate_rows n p ws ?c' (snd r3))"
      by (simp_all add: Let_def)
    from rest have "generate_rows n p ws ?c' (snd r3)
                    = (rest, snd (generate_rows n p ws ?c' (snd r3)))" by simp
    with s pick calc add Inr show ?thesis by (intro that[of r1 r2]) auto
  qed
qed

lemma generate_rows_Suc_Cons2:
  assumes "generate_rows (Suc n) p ws c g = (s # s' # rest', out)"
  obtains r1 r2 r3 out' where
    "pick_next_door p ws (demand_floor c) g = Some (Inr r1)"
    "calculate_interval_minutes p c (fst r1) (snd r1) = Inr r2"
    "pick_random_floor_weighted p ws (snd r2) = Inr r3"
    "cs_next_floor s = fst r1"
    "generate_rows n p ws
       \<lparr> current_floor = fst r1, demand_floor = fst r3, start_time = cs_call_datetime s \<rparr>
       (snd r3) = (s' # rest', out')"
proof (rule generate_rows_Suc_Cons[OF assms])
  fix r1 r2
  assume pick: "pick_next_door p ws (demand_floor c) g = Some (Inr r1)"
    and calc: "calculate_interval_minutes p c (fst r1) (snd r1) = Inr r2"
    and nf: "cs_next_floor s = fst r1"
    and rest: "s' # rest' = [] \<or>
       (\<exists>r3 out'. pick_random_floor_weighted p ws (snd r2) = Inr r3 \<and>
             generate_rows n p ws
                \<lparr> current_floor = fst r1, demand_floor = fst r3,
                  start_time = cs_call_datetime s \<rparr> (snd r3) = (s' # rest', out'))"
  from rest have "\<exists>r3 out'. pick_random_floor_weighted p ws (snd r2) = Inr r3 \<and>
             generate_rows n p ws
                \<lparr> current_floor = fst r1, demand_floor = fst r3,
                  start_time = cs_call_datetime s \<rparr> (snd r3) = (s' # rest', out')"
    by simp
  then obtain r3 out' where prfw: "pick_random_floor_weighted p ws (snd r2) = Inr r3"
    and run: "generate_rows n p ws
       \<lparr> current_floor = fst r1, demand_floor = fst r3, start_time = cs_call_datetime s \<rparr>
       (snd r3) = (s' # rest', out')"
    by (elim exE conjE)
  show thesis by (rule that[OF pick calc prfw nf run])
qed

lemma generate_rows_first:
  assumes "generate_rows n p ws c g = (s # rest, out)"
  shows "cs_current_floor s = current_floor c"
proof (cases n)
  case 0
  with assms show ?thesis by simp
next
  case (Suc m)
  from assms Suc have "generate_rows (Suc m) p ws c g = (s # rest, out)" by simp
  then show ?thesis by (rule generate_rows_Suc_Cons)
qed

lemma pick_next_door_minute_draws:
  "pick_next_door p ws d g = Some (Inr r) \<Longrightarrow> minute_draws (snd r) = minute_draws g"
  by (drule pick_next_door_Some) auto

lemma calculate_interval_minutes_Inr:
  assumes "calculate_interval_minutes p c nf g = Inr r"
  shows "fst r = of_int (minute_draws g (minute_pos g)) * peak_interval_multiplier p (start_time c)
                 + current_floor_interval_lag p (current_floor c) (demand_floor c)
                 + next_floor_interval_lag p nf (demand_floor c)"
    and "minute_draws (snd r) = minute_draws g"
  using assms
  by (auto simp: calculate_interval_minutes_def randint_def ebind_def Let_def split: if_splits)

lemma pick_random_floor_weighted_minute_draws:
  "pick_random_floor_weighted p ws g = Inr r \<Longrightarrow> minute_draws (snd r) = minute_draws g"
  by (auto simp: pick_random_floor_weighted_def dest!: choices_Inr)

lemma round_half_even_ge_1: "1 \<le> y \<Longrightarrow> 1 \<le> round_half_even y"
proof -
  assume "1 \<le> y"
  then have "1 \<le> \<lfloor>y\<rfloor>" by (simp add: le_floor_iff)
  then show ?thesis by (simp add: round_half_even_def Let_def)
qed

lemma lag_nonneg:
  assumes "0 < min_time_interval_seconds p" "0 < max_time_interval_seconds p"
    "0 \<le> interval_per_floor_seconds p"
  shows "0 \<le> current_floor_interval_lag p a b"
  using assms
  by (auto simp: current_floor_interval_lag_def Let_def)

lemma next_lag_positive:
  assumes "0 < min_time_interval_seconds p" "0 < max_time_interval_seconds p"
    "1 / 1000000 \<le> interval_per_floor_seconds p" "nf \<noteq> d"
  shows "1 / 60000000 \<le> next_floor_interval_lag p nf d"
proof (cases "\<bar>nf - d\<bar> \<le> 1")
  case True
  from assms(1) have "(1::rat) \<le> of_int (min_time_interval_seconds p)" by simp
  with True show ?thesis by (simp add: next_floor_interval_lag_def)
next
  case False
  then have d2: "(2::rat) \<le> of_int \<bar>nf - d\<bar>" by simp
  from assms(2) have mx: "(1::rat) \<le> of_int (max_time_interval_seconds p)" by simp
  have "2 * (1 / 1000000) \<le> of_int \<bar>nf - d\<bar> * interval_per_floor_seconds p"
    using d2 assms(3) by (intro mult_mono) auto
  then have "1 / 1000000 \<le> of_int \<bar>nf - d\<bar> * interval_per_floor_seconds p" by simp
  with mx have "1 / 1000000 \<le> min (of_int (max_time_interval_seconds p))
                (of_int \<bar>nf - d\<bar> * interval_per_floor_seconds p)" by simp
  with False show ?thesis by (simp add: next_floor_interval_lag_def)
qed

lemma multiplier_nonneg: "0 \<le> peak_multiplier p \<Longrightarrow> 0 \<le> peak_interval_multiplier p t"
  by (simp add: peak_interval_multiplier_def)

lemma step_advances:
  assumes v: "0 < min_time_interval_seconds p" "0 < max_time_interval_seconds p"
      "0 \<le> peak_multiplier p" "1 / 1000000 \<le> interval_per_floor_seconds p"
    and draws: "\<forall>k. 0 \<le> minute_draws g k"
    and pick: "pick_next_door p ws (demand_floor c) g = Some (Inr r1)"
    and calc: "calculate_interval_minutes p c (fst r1) (snd r1) = Inr r2"
    and add: "datetime_add (start_time c) (timedelta_minutes (fst r2)) = Inr t"
  shows "start_time c < t"
proof -
  from pick have ne: "fst r1 \<noteq> demand_floor c" by (drule_tac pick_next_door_Some) simp
  from pick_next_door_minute_draws[OF pick] draws
  have r: "0 \<le> minute_draws (snd r1) (minute_pos (snd r1))" by simp
  from v(4) have ipf: "0 \<le> interval_per_floor_seconds p" by simp
  have a: "0 \<le> of_int (minute_draws (snd r1) (minute_pos (snd r1)))
               * peak_interval_multiplier p (start_time c)"
    using r multiplier_nonneg[OF v(3)] by simp
  have b: "0 \<le> current_floor_interval_lag p (current_floor c) (demand_floor c)"
    using lag_nonneg[OF v(1,2) ipf] .
  have "1 / 60000000 \<le> fst r2"
    using a b next_lag_positive[OF v(1,2,4) ne] calculate_interval_minutes_Inr(1)[OF calc]
    by simp
  then have "1 \<le> fst r2 * 60000000" by simp
  from round_half_even_ge_1[OF this] have "1 \<le> timedelta_minutes (fst r2)"
    by (simp add: timedelta_minutes_def)
  with add show ?thesis by (auto simp: datetime_add_def split: if_splits)
qed

lemma generate_rows_chain:
  assumes "generate_rows n p ws c g = (states, out)" and "Suc i < length states"
  shows "cs_current_floor (states ! Suc i) = cs_next_floor (states ! i)"
  using assms
proof (induction n arbitrary: c g states out i)
  case 0
  then show ?case by simp
next
  case (Suc n)
  from Suc.prems(2) obtain s s' rest' where st: "states = s # s' # rest'"
    by (cases states; cases "tl states") auto
  from Suc.prems(1) st have full: "generate_rows (Suc n) p ws c g = (s # s' # rest', out)"
    by simp
  obtain r1 r2 r3 out' where
    pick: "pick_next_door p ws (demand_floor c) g = Some (Inr r1)" and
    calc: "calculate_interval_minutes p c (fst r1) (snd r1) = Inr r2" and
    prfw: "pick_random_floor_weighted p ws (snd r2) = Inr r3" and
    nf: "cs_next_floor s = fst r1" and
    run: "generate_rows n p ws \<lparr> current_floor = fst r1, demand_floor = fst r3,
                  start_time = cs_call_datetime s \<rparr> (snd r3) = (s' # rest', out')"
    by (rule generate_rows_Suc_Cons2[OF full])
  show ?case
  proof (cases i)
    case 0
    from generate_rows_first[OF run] nf 0 st show ?thesis by simp
  next
    case (Suc j)
    with Suc.prems(2) st have "Suc j < length (s' # rest')" by simp
    from Suc.IH[OF run this] Suc st show ?thesis by simp
  qed
qed

lemma generate_rows_first_later:
  assumes v: "0 < min_time_interval_seconds p" "0 < max_time_interval_seconds p"
      "0 \<le> peak_multiplier p" "1 / 1000000 \<le> interval_per_floor_seconds p"
    and draws: "\<forall>k. 0 \<le> minute_draws g k"
    and run: "generate_rows n p ws c g = (s # rest, out)"
  shows "start_time c < cs_call_datetime s"
proof (cases n)
  case 0
  with run show ?thesis by simp
next
  case (Suc m)
  from run Suc have full: "generate_rows (Suc m) p ws c g = (s # rest, out)" by simp
  show ?thesis
  proof (rule generate_rows_Suc_Cons[OF full])
    fix r1 r2
    assume "pick_next_door p ws (demand_floor c) g = Some (Inr r1)"
      "calculate_interval_minutes p c (fst r1) (snd r1) = Inr r2"
      "datetime_add (start_time c) (timedelta_minutes (fst r2)) = Inr (cs_call_datetime s)"
    from step_advances[OF v draws this] show ?thesis .
  qed
qed

lemma generate_rows_later:
  assumes v: "0 < min_time_interval_seconds p" "0 < max_time_interval_seconds p"
      "0 \<le> peak_multiplier p" "1 / 1000000 \<le> interval_per_floor_seconds p"
    and draws: "\<forall>k. 0 \<le> minute_draws g k"
    and run: "generate_rows n p ws c g = (states, out)" and i: "Suc i < length states"
  shows "cs_call_datetime (states ! i) < cs_call_datetime (states ! Suc i)"
  using draws run i
proof (induction n arbitrary: c g states out i)
  case 0
  then show ?case by simp
next
  case (Suc n)
  from Suc.prems(3) obtain s s' rest' where st: "states = s # s' # rest'"
    by (cases states; cases "tl states") auto
  from Suc.prems(2) st have full: "generate_rows (Suc n) p ws c g = (s # s' # rest', out)"
    by simp
  obtain r1 r2 r3 out' where
    pick: "pick_next_door p ws (demand_floor c) g = Some (Inr r1)" and
    calc: "calculate_interval_minutes p c (fst r1) (snd r1) = Inr r2" and
    prfw: "pick_random_floor_weighted p ws (snd r2) = Inr r3" and
    nf: "cs_next_floor s = fst r1" and
    run: "generate_rows n p ws \<lparr> current_floor = fst r1, demand_floor = fst r3,
                  start_time = cs_call_datetime s \<rparr> (snd r3) = (s' # rest', out')"
    by (rule generate_rows_Suc_Cons2[OF full])
  have "minute_draws (snd r3) = minute_draws g"
    using pick_next_door_minute_draws[OF pick] calculate_interval_minutes_Inr(2)[OF calc]
      pick_random_floor_weighted_minute_draws[OF prfw] by simp
  with Suc.prems(1) have draws': "\<forall>k. 0 \<le> minute_draws (snd r3) k" by simp
  show ?case
  proof (cases i)
    case 0
    from generate_rows_first_later[OF v draws' run] 0 st show ?thesis by simp
  next
    case (Suc j)
    with Suc.prems(3) st have "Suc j < length (s' # rest')" by simp
    from Suc.IH[OF draws' run this] Suc st show ?thesis by simp
  qed
qed

lemma generate_rows_date_str:
  assumes "generate_rows n p ws c g = (states, out)" and "s \<in> set states"
  shows "cs_date_str s = strftime (cs_call_datetime s)"
  using assms
proof (induction n arbitrary: c g states out)
  case 0
  then show ?case by simp
next
  case (Suc n)
  from Suc.prems(2) obtain s0 rest where st: "states = s0 # rest" by (cases states) auto
  from Suc.prems(1) st have full: "generate_rows (Suc n) p ws c g = (s0 # rest, out)" by simp
  show ?case
  proof (rule generate_rows_Suc_Cons[OF full])
    fix r1 r2
    assume d: "cs_date_str s0 = strftime (cs_call_datetime s0)"
      and rest: "rest = [] \<or>
       (\<exists>r3 out'. pick_random_floor_weighted p ws (snd r2) = Inr r3 \<and>
             generate_rows n p ws
                \<lparr> current_floor = fst r1, demand_floor = fst r3,
                  start_time = cs_call_datetime s0 \<rparr> (snd r3) = (rest, out'))"
    show ?thesis
    proof (cases "s = s0")
      case True
      with d show ?thesis by simp
    next
      case False
      with Suc.prems(2) st have mem: "s \<in> set rest" by simp
      then have "rest \<noteq> []" by auto
      with rest obtain r3 out' where "generate_rows n p ws
                \<lparr> current_floor = fst r1, demand_floor = fst r3,
                  start_time = cs_call_datetime s0 \<rparr> (snd r3) = (rest, out')"
        by (elim disjE exE conjE) simp_all
      from Suc.IH[OF this mem] show ?thesis .
    qed
  qed
qed

lemma strftime_whole_seconds: "strftime t = strftime (t - t mod 1000000)"
proof -
  have "(t - t mod 1000000) div 1000000 = t div 1000000"
    by (simp add: minus_mod_eq_mult_div)
  then show ?thesis by (simp add: strftime_def)
qed

lemma obtain_table_last_state_minute_draws:
  "obtain_table_last_state p ws last_state today g = Inr seed \<Longrightarrow> minute_draws (snd seed) = minute_draws g"
  by (auto simp: obtain_table_last_state_def ebind_Inr split: option.splits
      dest!: pick_random_floor_weighted_minute_draws)

lemma generate_elevator_states_rows:
  assumes "load_elevator_variables data = Inr p"
    and "generate_elevator_states data last_state today g = (states, outcome)"
    and "states \<noteq> []"
  obtains ws seed where "floor_weights_mapping p = Inr ws"
    "obtain_table_last_state p ws last_state today g = Inr seed"
    "generate_rows (nat (rows_generated p)) p ws (fst seed) (snd seed) = (states, outcome)"
  using assms
  by (auto simp: generate_elevator_states_def split: sum.splits)

text \<open>
  Claim C1, amended: in the states one run creates, each state's current floor is the
  next floor of the state before it; and each state's \<^verbatim>\<open>call_datetime\<close> is strictly
  later than that of the state before it whenever no random-minutes draw is negative and
  \<^verbatim>\<open>interval_per_floor_seconds\<close> is at least one microsecond. It holds of the states
  created so far also when the run ends in an exception or never ends.
\<close>

theorem chain_invariant:
  assumes "load_elevator_variables data = Inr p"
    and "generate_elevator_states data last_state today g = (states, outcome)"
    and "Suc i < length states"
  shows "cs_current_floor (states ! Suc i) = cs_next_floor (states ! i)
         \<and> ((\<forall>k. 0 \<le> minute_draws g k) \<and> 1 / 1000000 \<le> interval_per_floor_seconds p
              \<longrightarrow> cs_call_datetime (states ! i) < cs_call_datetime (states ! Suc i))"
proof -
  from assms(3) have ne: "states \<noteq> []" by auto
  obtain ws seed where
    "floor_weights_mapping p = Inr ws" and
    seed: "obtain_table_last_state p ws last_state today g = Inr seed" and
    run: "generate_rows (nat (rows_generated p)) p ws (fst seed) (snd seed) = (states, outcome)"
    by (rule generate_elevator_states_rows[OF assms(1,2) ne])
  note v = load_valid[OF assms(1)]
  have "cs_call_datetime (states ! i) < cs_call_datetime (states ! Suc i)"
    if d: "\<forall>k. 0 \<le> minute_draws g k" and ipf: "1 / 1000000 \<le> interval_per_floor_seconds p"
  proof -
    from d obtain_table_last_state_minute_draws[OF seed]
    have "\<forall>k. 0 \<le> minute_draws (snd seed) k" by simp
    from generate_rows_later[OF v(4,5,7) ipf this run assms(3)] show ?thesis .
  qed
  with generate_rows_chain[OF run assms(3)] show ?thesis by simp
qed

lemma negative_minutes_states:
  "fst (generate_elevator_states negative_minutes_config (Some example_last_state) 0
            negative_minutes_rng)
     = [\<lparr>cs_current_floor = 0, cs_demand_floor = 2, cs_next_floor = 4,
          cs_date_str = ''2024-01-01 11:50:00'', cs_call_datetime = 63839706600250000\<rparr>,
        \<lparr>cs_current_floor = 4, cs_demand_floor = 2, cs_next_floor = 0,
          cs_date_str = ''2024-01-01 11:40:00'', cs_call_datetime = 63839706000500000\<rparr>]"
  by code_simp

lemma load_negative_minutes_config:
  "load_elevator_variables negative_minutes_config = Inr negative_minutes_params"
  by code_simp

text \<open>
  Claim C1 says that each state's \<^verbatim>\<open>call_datetime\<close> is strictly later than that of
  the state before it. The loader accepts a range of negative random minutes; with the
  draw \<open>- 10\<close> the interval is negative and the second state is ten minutes earlier
  than the first.
\<close>

theorem chain_time_can_go_backwards:
  "load_elevator_variables negative_minutes_config = Inr negative_minutes_params
   \<and> fst (generate_elevator_states negative_minutes_config (Some example_last_state) 0
            negative_minutes_rng)
     = [\<lparr>cs_current_floor = 0, cs_demand_floor = 2, cs_next_floor = 4,
          cs_date_str = ''2024-01-01 11:50:00'', cs_call_datetime = 63839706600250000\<rparr>,
        \<lparr>cs_current_floor = 4, cs_demand_floor = 2, cs_next_floor = 0,
          cs_date_str = ''2024-01-01 11:40:00'', cs_call_datetime = 63839706000500000\<rparr>]
   \<and> cs_call_datetime (fst (generate_elevator_states negative_minutes_config
          (Some example_last_state) 0 negative_minutes_rng) ! 1)
       < cs_call_datetime (fst (generate_elevator_states negative_minutes_config
          (Some example_last_state) 0 negative_minutes_rng) ! 0)"
  by (simp add: negative_minutes_states load_negative_minutes_config)

lemma example_states:
  "fst (generate_elevator_states base_config (Some example_last_state) 0 example_rng)
   = [\<lparr>cs_current_floor = 0, cs_demand_floor = 2, cs_next_floor = 4,
          cs_date_str = ''2024-01-01 12:00:00'', cs_call_datetime = 63839707200250000\<rparr>,
       \<lparr>cs_current_floor = 4, cs_demand_floor = 2, cs_next_floor = 0,
          cs_date_str = ''2024-01-01 12:00:00'', cs_call_datetime = 63839707200500000\<rparr>]"
  by code_simp

lemma example_outcome:
  "map_option (map_sum id fst)
     (snd (generate_elevator_states base_config (Some example_last_state) 0 example_rng))
   = Some (Inr \<lparr>current_floor = 0, demand_floor = 1, start_time = 63839707200500000\<rparr>)"
  by code_simp

theorem chain_invariant_witness:
  "cs_current_floor (fst (generate_elevator_states base_config (Some example_last_state) 0
       example_rng) ! 1) = 4
   \<and> cs_next_floor (fst (generate_elevator_states base_config (Some example_last_state) 0
       example_rng) ! 0) = 4
   \<and> cs_call_datetime (fst (generate_elevator_states base_config (Some example_last_state) 0
       example_rng) ! 0)
     < cs_call_datetime (fst (generate_elevator_states base_config (Some example_last_state) 0
       example_rng) ! 1)"
proof -
  have d: "\<forall>k. 0 \<le> minute_draws example_rng k" by (simp add: example_rng_def)
  have ipf: "1 / 1000000 \<le> interval_per_floor_seconds base_params"
    by (simp add: base_params_def)
  have i: "Suc 0 < length (fst (generate_elevator_states base_config (Some example_last_state)
       0 example_rng))"
    by (simp add: example_states)
  from chain_invariant[OF load_base_config prod.collapse[symmetric] i] d ipf
  show ?thesis by (simp add: example_states)
qed

text \<open>
  Claim C9: the \<open>date_str\<close> passed to the store is the in-memory \<^verbatim>\<open>call_datetime\<close>
  formatted to whole seconds, the fraction of the second dropped; and two consecutive
  states of a run can carry the same string although their \<^verbatim>\<open>call_datetime\<close> values
  strictly increase (a quarter of a second apart in the run on \<open>base_config\<close>).
\<close>

theorem persisted_timestamp_truncates_seconds:
  "(s \<in> set (fst (generate_elevator_states data last_state today g)) \<longrightarrow>
       cs_date_str s = strftime (cs_call_datetime s)
     \<and> cs_date_str s = strftime (cs_call_datetime s - cs_call_datetime s mod 1000000))
   \<and> (\<exists>data' last_state' today' g' i.
         Suc i < length (fst (generate_elevator_states data' last_state' today' g'))
       \<and> cs_date_str (fst (generate_elevator_states data' last_state' today' g') ! i)
         = cs_date_str (fst (generate_elevator_states data' last_state' today' g') ! Suc i)
       \<and> cs_call_datetime (fst (generate_elevator_states data' last_state' today' g') ! i)
         < cs_call_datetime (fst (generate_elevator_states data' last_state' today' g') ! Suc i))"
proof (intro conjI impI)
  assume mem: "s \<in> set (fst (generate_elevator_states data last_state today g))"
  have "cs_date_str s = strftime (cs_call_datetime s)"
  proof (cases "load_elevator_variables data")
    case (Inl e)
    with mem show ?thesis by (simp add: generate_elevator_states_def)
  next
    case (Inr p)
    from mem have ne: "fst (generate_elevator_states data last_state today g) \<noteq> []" by auto
    obtain ws seed where
      "floor_weights_mapping p = Inr ws"
      "obtain_table_last_state p ws last_state today g = Inr seed"
      "generate_rows (nat (rows_generated p)) p ws (fst seed) (snd seed)
        = (fst (generate_elevator_states data last_state today g),
           snd (generate_elevator_states data last_state today g))"
      by (rule generate_elevator_states_rows[OF Inr prod.collapse[symmetric] ne])
    from generate_rows_date_str[OF this(3) mem] show ?thesis .
  qed
  then show "cs_date_str s = strftime (cs_call_datetime s)"
    and "cs_date_str s = strftime (cs_call_datetime s - cs_call_datetime s mod 1000000)"
    using strftime_whole_seconds[of "cs_call_datetime s"] by simp_all
next
  show "\<exists>data' last_state' today' g' i.
         Suc i < length (fst (generate_elevator_states data' last_state' today' g'))
       \<and> cs_date_str (fst (generate_elevator_states data' last_state' today' g') ! i)
         = cs_date_str (fst (generate_elevator_states data' last_state' today' g') ! Suc i)
       \<and> cs_call_datetime (fst (generate_elevator_states data' last_state' today' g') ! i)
         < cs_call_datetime (fst (generate_elevator_states data' last_state' today' g') ! Suc i)"
    by (rule exI[of _ base_config], rule exI[of _ "Some example_last_state"], rule exI[of _ 0],
        rule exI[of _ example_rng], rule exI[of _ 0]) (simp add: example_states)
qed

theorem persisted_timestamp_truncates_seconds_witness:
  "cs_date_str (fst (generate_elevator_states base_config (Some example_last_state) 0
       example_rng) ! 0) = strftime 63839707200250000
   \<and> cs_date_str (fst (generate_elevator_states base_config (Some example_last_state) 0
       example_rng) ! 0) = strftime 63839707200000000
   \<and> cs_date_str (fst (generate_elevator_states base_config (Some example_last_state) 0
       example_rng) ! 0) = ''2024-01-01 12:00:00''
   \<and> cs_date_str (fst (generate_elevator_states base_config (Some example_last_state) 0
       example_rng) ! 1) = ''2024-01-01 12:00:00''"
proof -
  let ?s = "fst (generate_elevator_states base_config (Some example_last_state) 0
       example_rng) ! 0"
  have mem: "?s \<in> set (fst (generate_elevator_states base_config (Some example_last_state) 0
       example_rng))"
    by (simp add: example_states)
  from persisted_timestamp_truncates_seconds[of ?s base_config "Some example_last_state" 0
      example_rng] mem
  show ?thesis by (auto simp: example_states)
qed

section \<open>The sum of the floor weights\<close>

lemma round_half_even_close: "\<bar>of_int (round_half_even y) - y\<bar> \<le> 1 / 2"
proof -
  have "of_int \<lfloor>y\<rfloor> \<le> y" "y < of_int \<lfloor>y\<rfloor> + 1" by linarith+
  then show ?thesis
    by (auto simp: round_half_even_def Let_def abs_le_iff)
qed

lemma py_round_3_close: "\<bar>py_round x 3 - x\<bar> \<le> 1 / 2000"
proof -
  have "\<bar>of_int (round_half_even (x * 1000)) - x * 1000\<bar> \<le> 1 / 2"
    by (rule round_half_even_close)
  then have "\<bar>(of_int (round_half_even (x * 1000)) - x * 1000) / 1000\<bar> \<le> (1 / 2) / 1000"
    by (simp only: abs_divide) (simp add: divide_le_cancel)
  then show ?thesis by (simp add: py_round_def diff_divide_distrib)
qed

lemma map_err_length: "map_err f xs = Inr ys \<Longrightarrow> length ys = length xs"
  by (induction xs arbitrary: ys) (auto simp: ebind_Inr)

lemma map_err_normalise:
  "map_err (\<lambda>weight. ebind (py_div weight tw) (\<lambda>q. Inr (py_round q 3))) raw = Inr ws
   \<Longrightarrow> raw \<noteq> [] \<Longrightarrow> tw \<noteq> 0"
  by (cases raw) (auto simp: ebind_Inr py_div_def split: if_splits)

lemma map_err_normalise_map:
  "map_err (\<lambda>weight. ebind (py_div weight tw) (\<lambda>q. Inr (py_round q 3))) raw = Inr ws
   \<Longrightarrow> ws = map (\<lambda>weight. py_round (weight / tw) 3) raw"
  by (induction raw arbitrary: ws) (auto simp: ebind_Inr py_div_def split: if_splits)

lemma sum_list_rounded_close:
  "\<bar>sum_list (map (\<lambda>x. py_round (f x) 3) xs) - sum_list (map f xs)\<bar>
     \<le> of_nat (length xs) * (1 / 2000)"
proof (induction xs)
  case Nil
  then show ?case by simp
next
  case (Cons x xs)
  have a: "\<bar>py_round (f x) 3 - f x\<bar> \<le> 1 / 2000" by (rule py_round_3_close)
  have "\<bar>sum_list (map (\<lambda>x. py_round (f x) 3) (x # xs)) - sum_list (map f (x # xs))\<bar>
        = \<bar>(py_round (f x) 3 - f x)
           + (sum_list (map (\<lambda>x. py_round (f x) 3) xs) - sum_list (map f xs))\<bar>"
    by simp
  also have "\<dots> \<le> \<bar>py_round (f x) 3 - f x\<bar>
                  + \<bar>sum_list (map (\<lambda>x. py_round (f x) 3) xs) - sum_list (map f xs)\<bar>"
    by (rule abs_triangle_ineq)
  also have "\<dots> \<le> 1 / 2000 + of_nat (length xs) * (1 / 2000)"
    using a Cons.IH by (rule add_mono)
  also have "\<dots> = of_nat (length (x # xs)) * (1 / 2000)"
    by (simp add: algebra_simps)
  finally show ?case .
qed

lemma sum_list_divide_const: "sum_list (map (\<lambda>x. x / c) xs) = sum_list xs / (c::rat)"
  by (induction xs) (simp_all add: add_divide_distrib)

text \<open>
  The sum of the derived weights, in exact arithmetic: for an accepted configuration
  whose derivation succeeds, the rounded weights sum to 1 within 0.0005 per floor.
\<close>

lemma floor_weights_sum_exact:
  assumes "load_elevator_variables data = Inr p"
    and "floor_weights_mapping p = Inr ws"
  shows "\<bar>sum_list ws - 1\<bar> \<le> of_nat (length ws) * (1 / 2000)"
proof -
  let ?caps = "floor_capacities_mapping p"
  from assms(2) obtain mn mx base raw where
    raw: "map_err (raw_weight base mn mx) ?caps = Inr raw" and
    ws: "map_err (\<lambda>weight. ebind (py_div weight (sum_list raw)) (\<lambda>q. Inr (py_round q 3))) raw
         = Inr ws"
    by (auto simp: floor_weights_mapping_def Let_def ebind_Inr)
  from load_valid(2,3)[OF assms(1)] have "negative_floor_number p < floor_number p" by simp
  from py_range_nonempty[OF this] have "?caps \<noteq> []"
    by (simp add: floor_capacities_mapping_def)
  with map_err_length[OF raw] have ne: "raw \<noteq> []" by auto
  from map_err_normalise[OF ws ne] have total: "sum_list raw \<noteq> 0" .
  from map_err_normalise_map[OF ws]
  have eq: "ws = map (\<lambda>weight. py_round (weight / sum_list raw) 3) raw" .
  have one: "sum_list (map (\<lambda>weight. weight / sum_list raw) raw) = 1"
    using total by (simp add: sum_list_divide_const)
  from sum_list_rounded_close[of "\<lambda>weight. weight / sum_list raw" raw] one eq
  show ?thesis by simp
qed

text \<open>
  The bound is attained: for \<open>tie_params\<close> every weight is rounded down by exactly
  0.0005 (ties go to the even digit), and the sum is 0.998. Whether the floats the
  program computes stay within the bound there is a matter of their binary rounding,
  which this model does not have.
\<close>

lemma floor_weights_sum_bound_attained: "floor_weights_mapping tie_params = Inr [31 / 500, 39 / 125, 39 / 125, 39 / 125]
   \<and> \<bar>sum_list [31 / 500, 39 / 125, 39 / 125, 39 / 125 :: rat] - 1\<bar> = 4 * (1 / 2000)"
  by code_simp

end
